theory Spec2Isabelle
  imports Main "HOL-Library.Word"
begin

unbundle bit_operations_syntax

section \<open>The event-port watcher of src/watcher/portfs.cpp\<close>

text \<open>
  The file implements one watcher backend on top of Solaris event ports. Two member
  functions carry all of its logic: \<open>do_watch\<close> arms one path, \<open>consumeNotify\<close> drains one
  batch of events. Both are embedded below with explicit state passing. The model is
  sequential: \<open>pthread_mutex_lock\<close> and \<open>pthread_mutex_unlock\<close> on the watcher's lock
  bracket exactly the critical sections and have no counterpart here, and the debug and
  error log lines are dropped (only the fatal one changes control flow), together with
  \<open>w_expand_flags\<close> over the table \<open>pflags\<close>, which builds the label those lines print.
  Reference counts of path strings are not modelled: a path is its bytes.
\<close>

subsection \<open>Data\<close>

type_synonym w_string = string
type_synonym timespec = "int \<times> int"
type_synonym timeval = "int \<times> int"

text \<open>A C object that has been declared; it holds a value only once something stored one.\<close>

datatype 'a cvar = Uninitialized | Initialized 'a

text \<open>The three time stamps of \<open>struct stat\<close> that \<open>make_port_file\<close> reads.\<close>

record stat =
  st_atim :: timespec
  st_mtim :: timespec
  st_ctim :: timespec

text \<open>\<open>file_obj_t\<close> of the operating system, and the watcher's token that wraps it.\<close>

record file_obj =
  fo_atime :: timespec
  fo_mtime :: timespec
  fo_ctime :: timespec
  fo_name :: string

record watchman_port_file =
  port_file :: file_obj
  name :: w_string

text \<open>
  \<open>port_event_t\<close>: the event bits and the user cookie. The cookie is the pointer to the
  token that was handed to \<open>port_associate\<close>; the model carries the token it points to.
\<close>

record port_event =
  portev_events :: "32 word"
  portev_user :: watchman_port_file

datatype errno = EINTR | EBADF | EBADFD | EFAULT | EINVAL | ETIME
  | ENOENT | EACCES | ENOMEM | EAGAIN | ENOTSUP

text \<open>
  The calls made on the native handle \<open>port_fd\<close>, in order. The watcher record keeps
  them so that a theorem can say that a call was, or was not, made.
\<close>

datatype native_call =
    Port_associate int watchman_port_file "32 word"
  | Port_getn int nat nat

record PortFSWatcher =
  port_fd :: int
  port_files :: "w_string \<rightharpoonup> watchman_port_file"
  native_calls :: "native_call list"

text \<open>
  Modelled from the spec: \<open>w_root_t\<close> is declared in watchman.h, which is not in src.
  Section 3 gives the watch root a root path and a one-way \<open>cancelled\<close> flag.
\<close>

record w_root =
  root_path :: w_string
  cancelled :: bool

text \<open>
  Modelled from the spec: the Pending Change Record of section 3,
  \<open>{path, observedAt, isRecursive, origin}\<close>; \<open>struct watchman_pending_collection\<close>
  and \<open>w_pending_coll_add\<close> are not in src. The collection is represented by the
  sequence of pushes made to it, oldest first. The flag constants
  \<open>W_PENDING_RECURSIVE\<close> and \<open>W_PENDING_VIA_NOTIFY\<close> are combined with \<open>|\<close> in the
  source; here the argument is the set of the flags given.
\<close>

datatype origin = Notify | Stat

datatype pending_flag = W_PENDING_RECURSIVE | W_PENDING_VIA_NOTIFY

record pending_change =
  path :: w_string
  observedAt :: "timeval cvar"
  isRecursive :: bool
  origin :: origin

type_synonym watchman_pending_collection = "pending_change list"

definition w_pending_coll_add ::
  "watchman_pending_collection \<Rightarrow> w_string \<Rightarrow> timeval cvar \<Rightarrow> pending_flag set
     \<Rightarrow> watchman_pending_collection" where
  "w_pending_coll_add coll p now flags =
     coll @ [\<lparr>path = p, observedAt = now,
              isRecursive = (W_PENDING_RECURSIVE \<in> flags),
              origin = (if W_PENDING_VIA_NOTIFY \<in> flags then Notify else Stat)\<rparr>]"

text \<open>
  Modelled from the spec: \<open>w_root_cancel\<close> is not in src; it performs the transition
  Active \<open>\<rightarrow>\<close> Cancelled of section 4.5.
\<close>

definition w_root_cancel :: "w_root \<Rightarrow> w_root" where
  "w_root_cancel root = root\<lparr>cancelled := True\<rparr>"

text \<open>
  Modelled from the spec: \<open>w_string_equal\<close> is not in src; section 3 makes equality of
  canonical paths byte-exact.
\<close>

definition w_string_equal :: "w_string \<Rightarrow> w_string \<Rightarrow> bool" where
  "w_string_equal a b \<longleftrightarrow> a = b"

subsection \<open>Constants\<close>

text \<open>
  The event bits of the operating system's \<open>sys/port.h\<close>. No theorem below depends on
  the particular values.
\<close>

definition FILE_ACCESS :: "32 word" where "FILE_ACCESS = 0x00000001"
definition FILE_MODIFIED :: "32 word" where "FILE_MODIFIED = 0x00000002"
definition FILE_ATTRIB :: "32 word" where "FILE_ATTRIB = 0x00000004"
definition FILE_DELETE :: "32 word" where "FILE_DELETE = 0x00000010"
definition FILE_RENAME_TO :: "32 word" where "FILE_RENAME_TO = 0x00000020"
definition FILE_RENAME_FROM :: "32 word" where "FILE_RENAME_FROM = 0x00000040"
definition FILE_NOFOLLOW :: "32 word" where "FILE_NOFOLLOW = 0x10000000"
definition UNMOUNTED :: "32 word" where "UNMOUNTED = 0x20000000"
definition MOUNTEDOVER :: "32 word" where "MOUNTEDOVER = 0x40000000"

definition WATCHMAN_PORT_EVENTS :: "32 word" where
  "WATCHMAN_PORT_EVENTS = FILE_MODIFIED OR FILE_ATTRIB OR FILE_NOFOLLOW"

subsection \<open>The path registry: \<open>port_files\<close>\<close>

text \<open>
  Modelled from the spec: the hash table \<open>w_ht_t\<close> and its operations are not in src.
  Section 2 describes the registry as a mapping from canonical path to token, so the
  table is a map. \<open>w_ht_get\<close> yields the stored value or nothing. \<open>w_ht_set\<close> inserts
  without replacing: it reports failure, and changes nothing, when the key is present
  or when no memory is to be had for the new entry. \<open>w_ht_del\<close> removes the key.
\<close>

definition w_ht_get :: "('k \<rightharpoonup> 'v) \<Rightarrow> 'k \<Rightarrow> 'v option" where
  "w_ht_get ht k = ht k"

definition w_ht_set :: "bool \<Rightarrow> ('k \<rightharpoonup> 'v) \<Rightarrow> 'k \<Rightarrow> 'v \<Rightarrow> ('k \<rightharpoonup> 'v) option" where
  "w_ht_set no_memory ht k v =
     (if ht k \<noteq> None \<or> no_memory then None else Some (ht(k \<mapsto> v)))"

definition w_ht_del :: "('k \<rightharpoonup> 'v) \<Rightarrow> 'k \<Rightarrow> ('k \<rightharpoonup> 'v)" where
  "w_ht_del ht k = ht(k := None)"

subsection \<open>Arming a path: \<open>do_watch\<close>\<close>

text \<open>
  What the surroundings answer during one \<open>do_watch\<close> call: whether \<open>calloc\<close> fails,
  whether the hash table finds no memory for a new entry, and the error, if any, with
  which the operating system refuses \<open>port_associate\<close>.
\<close>

record environment =
  calloc_fails :: bool
  w_ht_set_fails :: bool
  port_associate_errno :: "errno option"

definition make_port_file :: "environment \<Rightarrow> w_string \<Rightarrow> stat \<Rightarrow> watchman_port_file option" where
  "make_port_file env nm st =
     (if calloc_fails env then None
      else Some \<lparr>port_file = \<lparr>fo_atime = st_atim st, fo_mtime = st_mtim st,
                                fo_ctime = st_ctim st, fo_name = nm\<rparr>,
                 name = nm\<rparr>)"

text \<open>\<open>port_associate\<close>: the call is recorded; the result is 0 or \<open>-1\<close> with \<open>errno\<close> set.\<close>

definition port_associate ::
  "environment \<Rightarrow> PortFSWatcher \<Rightarrow> watchman_port_file \<Rightarrow> 32 word \<Rightarrow> int \<times> PortFSWatcher" where
  "port_associate env w f events =
     ((case port_associate_errno env of None \<Rightarrow> 0 | Some e \<Rightarrow> - 1),
      w\<lparr>native_calls := native_calls w @ [Port_associate (port_fd w) f events]\<rparr>)"

definition do_watch ::
  "environment \<Rightarrow> PortFSWatcher \<Rightarrow> w_string \<Rightarrow> stat \<Rightarrow> bool \<times> PortFSWatcher" where
  "do_watch env w nm st =
     (if w_ht_get (port_files w) nm \<noteq> None then (True, w)
      else case make_port_file env nm st of
        None \<Rightarrow> (False, w)
      | Some f \<Rightarrow>
          (case w_ht_set (w_ht_set_fails env) (port_files w) nm f of
             None \<Rightarrow> (False, w)
           | Some ht \<Rightarrow>
               (case port_associate env (w\<lparr>port_files := ht\<rparr>) f WATCHMAN_PORT_EVENTS of
                  (rc, w') \<Rightarrow>
                    if rc \<noteq> 0
                    then (False, w'\<lparr>port_files := w_ht_del (port_files w') nm\<rparr>)
                    else (True, w'))))"

subsection \<open>Draining a batch: \<open>consumeNotify\<close>\<close>

text \<open>
  What the operating system answers to one \<open>port_getn\<close> call: an error, or the events
  it has for the port. \<open>port_getn\<close> stores at most \<open>mx\<close> of them, its argument \<open>max\<close>,
  in the caller's array and reports how many it stored; on failure it stores none.
\<close>

datatype port_getn_reply = Getn_fails errno | Getn_delivers "port_event list"

definition port_getn :: "port_getn_reply \<Rightarrow> nat \<Rightarrow> nat \<Rightarrow> errno + port_event list" where
  "port_getn reply mx nget =
     (case reply of Getn_fails e \<Rightarrow> Inl e | Getn_delivers evs \<Rightarrow> Inr (take mx evs))"

text \<open>
  Modelled from the spec: \<open>w_log\<close> is not in src. A message at level \<open>W_LOG_FATAL\<close> ends
  the process once it is logged (sections 4.2 and 7: fatal, the loop terminates), so
  the call that logs it has no return value.
\<close>

datatype 'a outcome = Fatal errno | Returned 'a

text \<open>
  The body of the \<open>for\<close> loop over \<open>portevents[i]\<close>, \<open>i < n\<close>. The list is what is left of
  the batch, \<open>i\<close> is the loop variable; the result carries the value that is returned
  (\<open>True\<close> when the loop runs to its end) and \<open>i\<close> at the exit.
\<close>

fun notify_loop ::
  "timeval cvar \<Rightarrow> port_event list \<Rightarrow> nat \<Rightarrow> PortFSWatcher \<Rightarrow> w_root
     \<Rightarrow> watchman_pending_collection
     \<Rightarrow> bool \<times> nat \<times> PortFSWatcher \<times> w_root \<times> watchman_pending_collection" where
  "notify_loop now [] i w root coll = (True, i, w, root, coll)"
| "notify_loop now (ev # rest) i w root coll =
     (let pe = portev_events ev; f = portev_user ev in
      if pe AND (FILE_RENAME_FROM OR UNMOUNTED OR MOUNTEDOVER OR FILE_DELETE) \<noteq> 0
           \<and> w_string_equal (name f) (root_path root)
      then (False, i, w, w_root_cancel root, coll)
      else notify_loop now rest (Suc i)
             (w\<lparr>port_files := w_ht_del (port_files w) (name f)\<rparr>)
             root
             (w_pending_coll_add coll (name f) now
                {W_PENDING_RECURSIVE, W_PENDING_VIA_NOTIFY}))"

text \<open>
  \<open>batch_limit\<close> stands for \<open>WATCHMAN_BATCH_LIMIT\<close>, the length of the member array
  \<open>portevents\<close> (the constant is defined in watchman.h, not in src). The local \<open>now\<close> is
  declared and never assigned.
\<close>

definition consumeNotify ::
  "nat \<Rightarrow> port_getn_reply \<Rightarrow> PortFSWatcher \<Rightarrow> w_root \<Rightarrow> watchman_pending_collection
     \<Rightarrow> (bool \<times> PortFSWatcher \<times> w_root \<times> watchman_pending_collection) outcome" where
  "consumeNotify batch_limit reply w root coll =
     (let now = Uninitialized;
          w1 = w\<lparr>native_calls := native_calls w @ [Port_getn (port_fd w) batch_limit 1]\<rparr>
      in case port_getn reply batch_limit 1 of
           Inl e \<Rightarrow> if e = EINTR then Returned (False, w1, root, coll) else Fatal e
         | Inr portevents \<Rightarrow>
             if length portevents = 0 then Returned (False, w1, root, coll)
             else (case notify_loop now portevents 0 w1 root coll of
                     (ret, i, w', root', coll') \<Rightarrow> Returned (ret, w', root', coll')))"

subsection \<open>Vocabulary of the properties\<close>

text \<open>
  The following definitions belong to the statements, not to the program. \<open>has_flag\<close>
  says that an event's bits include a flag. \<open>root_loss\<close> is the condition under which
  an event means that the watched root itself is gone. \<open>processed\<close> is the part of a
  batch that comes before the first such event: the whole batch when there is none.
  \<open>pushed\<close> is the record that the loop body hands to the collector for an event.
\<close>

definition has_flag :: "32 word \<Rightarrow> 32 word \<Rightarrow> bool" where
  "has_flag pe fl \<longleftrightarrow> pe AND fl \<noteq> 0"

definition root_loss :: "w_root \<Rightarrow> port_event \<Rightarrow> bool" where
  "root_loss root ev \<longleftrightarrow>
     (has_flag (portev_events ev) FILE_DELETE \<or> has_flag (portev_events ev) FILE_RENAME_FROM
        \<or> has_flag (portev_events ev) UNMOUNTED \<or> has_flag (portev_events ev) MOUNTEDOVER)
     \<and> name (portev_user ev) = root_path root"

definition processed :: "w_root \<Rightarrow> port_event list \<Rightarrow> port_event list" where
  "processed root evs = takeWhile (\<lambda>ev. \<not> root_loss root ev) evs"

definition pushed :: "timeval cvar \<Rightarrow> port_event \<Rightarrow> pending_change" where
  "pushed now ev =
     \<lparr>path = name (portev_user ev), observedAt = now, isRecursive = True, origin = Notify\<rparr>"

definition names :: "port_event list \<Rightarrow> w_string set" where
  "names evs = (\<lambda>ev. name (portev_user ev)) ` set evs"

definition iterations :: "bool \<Rightarrow> nat \<Rightarrow> nat" where
  "iterations ret i = (if ret then i else Suc i)"

subsection \<open>Example inputs\<close>

text \<open>
  A root \<open>/r\<close> with the root itself and two files armed, and the events the operating
  system delivers for a token when its file is modified or deleted.
\<close>

definition ex_root :: w_root where
  "ex_root = \<lparr>root_path = ''/r'', cancelled = False\<rparr>"

definition ex_stat :: stat where
  "ex_stat = \<lparr>st_atim = (1, 0), st_mtim = (2, 0), st_ctim = (3, 0)\<rparr>"

definition ex_token :: "w_string \<Rightarrow> watchman_port_file" where
  "ex_token p =
     \<lparr>port_file = \<lparr>fo_atime = (1, 0), fo_mtime = (2, 0), fo_ctime = (3, 0), fo_name = p\<rparr>,
      name = p\<rparr>"

definition ex_watcher :: PortFSWatcher where
  "ex_watcher =
     \<lparr>port_fd = 3,
      port_files = [''/r'' \<mapsto> ex_token ''/r'', ''/r/a'' \<mapsto> ex_token ''/r/a'',
                    ''/r/b'' \<mapsto> ex_token ''/r/b''],
      native_calls = []\<rparr>"

definition ex_empty :: PortFSWatcher where
  "ex_empty = \<lparr>port_fd = 3, port_files = Map.empty, native_calls = []\<rparr>"

definition ex_modified :: "w_string \<Rightarrow> port_event" where
  "ex_modified p = \<lparr>portev_events = FILE_MODIFIED, portev_user = ex_token p\<rparr>"

definition ex_deleted :: "w_string \<Rightarrow> port_event" where
  "ex_deleted p = \<lparr>portev_events = FILE_DELETE, portev_user = ex_token p\<rparr>"

definition ex_ok :: environment where
  "ex_ok = \<lparr>calloc_fails = False, w_ht_set_fails = False, port_associate_errno = None\<rparr>"

definition ex_refused :: environment where
  "ex_refused =
     \<lparr>calloc_fails = False, w_ht_set_fails = False, port_associate_errno = Some ENOENT\<rparr>"

section \<open>Properties\<close>

subsection \<open>The loop and the whole call in closed form\<close>

text \<open>
  The test of the loop body is the root-loss condition; from there, induction over the
  batch gives what the loop returns, and the definition of \<open>consumeNotify\<close> what the
  call returns, for every batch.
\<close>

lemma and_or_zero: "(pe AND (a OR b OR c OR d) = 0) \<longleftrightarrow> pe AND a = 0 \<and> pe AND b = 0 \<and> pe AND c = 0 \<and> pe AND (d::32 word) = 0"
  by (simp add: bit.conj_disj_distrib or_eq_0_iff)

lemma root_loss_test:
  "(portev_events ev AND (FILE_RENAME_FROM OR UNMOUNTED OR MOUNTEDOVER OR FILE_DELETE) \<noteq> 0
      \<and> w_string_equal (name (portev_user ev)) (root_path root)) \<longleftrightarrow> root_loss root ev"
  unfolding root_loss_def has_flag_def w_string_equal_def
  using and_or_zero [of "portev_events ev" FILE_RENAME_FROM UNMOUNTED MOUNTEDOVER FILE_DELETE]
  by blast

lemma restrict_del: "(w_ht_del m k) |` (- S) = m |` (- insert k S)"
  by (rule ext) (simp add: w_ht_del_def restrict_map_def)

lemma notify_loop_Cons:
  "notify_loop now (ev # rest) i w root coll =
     (if root_loss root ev then (False, i, w, w_root_cancel root, coll)
      else notify_loop now rest (Suc i)
             (w\<lparr>port_files := w_ht_del (port_files w) (name (portev_user ev))\<rparr>) root
             (coll @ [pushed now ev]))"
  using root_loss_test [of ev root]
  by (simp add: Let_def w_pending_coll_add_def pushed_def)

lemma notify_loop_eq:
  "notify_loop now evs i w root coll =
     ((\<forall>e\<in>set evs. \<not> root_loss root e),
      i + length (processed root evs),
      w\<lparr>port_files := port_files w |` (- names (processed root evs))\<rparr>,
      (if \<forall>e\<in>set evs. \<not> root_loss root e then root else w_root_cancel root),
      coll @ map (pushed now) (processed root evs))"
proof (induction evs arbitrary: i w coll)
  case Nil
  show ?case by (simp add: processed_def names_def)
next
  case (Cons ev rest)
  show ?case
  proof (cases "root_loss root ev")
    case True
    then show ?thesis
      by (simp add: notify_loop_Cons processed_def names_def del: notify_loop.simps)
  next
    case False
    then show ?thesis
      using Cons.IH
      by (simp add: notify_loop_Cons processed_def names_def restrict_del del: notify_loop.simps)
  qed
qed


lemma consumeNotify_events:
  assumes "port_getn reply limit 1 = Inr evs"
  shows "consumeNotify limit reply w root coll =
     Returned (evs \<noteq> [] \<and> (\<forall>e\<in>set evs. \<not> root_loss root e),
       w\<lparr>port_files := port_files w |` (- names (processed root evs)),
         native_calls := native_calls w @ [Port_getn (port_fd w) limit 1]\<rparr>,
       (if \<forall>e\<in>set evs. \<not> root_loss root e then root else w_root_cancel root),
       coll @ map (pushed Uninitialized) (processed root evs))"
proof (cases "evs = []")
  case True
  then show ?thesis using assms
    by (simp add: consumeNotify_def processed_def names_def restrict_map_def)
next
  case False
  then show ?thesis using assms
    by (simp add: consumeNotify_def notify_loop_eq)
qed

lemma consumeNotify_error:
  assumes "port_getn reply limit 1 = Inl e"
  shows "consumeNotify limit reply w root coll =
     (if e = EINTR
      then Returned (False, w\<lparr>native_calls := native_calls w @ [Port_getn (port_fd w) limit 1]\<rparr>,
                     root, coll)
      else Fatal e)"
  using assms by (simp add: consumeNotify_def)

lemma processed_prefix: "processed root evs = take (length (processed root evs)) evs"
  unfolding processed_def by (rule takeWhile_eq_take)

lemma processed_stops:
  assumes "k < length evs" and "root_loss root (evs ! k)"
  shows "length (processed root evs) \<le> k"
proof (rule ccontr)
  assume "\<not> length (processed root evs) \<le> k"
  then have lt: "k < length (takeWhile (\<lambda>ev. \<not> root_loss root ev) evs)"
    by (simp add: processed_def)
  then have "takeWhile (\<lambda>ev. \<not> root_loss root ev) evs ! k = evs ! k"
    by (rule takeWhile_nth)
  moreover have "takeWhile (\<lambda>ev. \<not> root_loss root ev) evs ! k
      \<in> set (takeWhile (\<lambda>ev. \<not> root_loss root ev) evs)"
    using lt by (rule nth_mem)
  ultimately have "\<not> root_loss root (evs ! k)"
    by (auto dest: set_takeWhileD)
  with assms(2) show False by simp
qed

lemmas ex_defs = ex_root_def ex_token_def ex_watcher_def ex_modified_def ex_deleted_def
  root_loss_def has_flag_def FILE_MODIFIED_def FILE_DELETE_def FILE_RENAME_FROM_def
  UNMOUNTED_def MOUNTEDOVER_def

subsection \<open>Loss of the root\<close>

text \<open>
  C1. When an event of the drained batch has one of the flags FILE_DELETE,
  FILE_RENAME_FROM, UNMOUNTED or MOUNTEDOVER and its path is the root path, the call
  cancels the root and returns false. The events handled are a prefix of the batch that
  ends before that event: nothing at its position or later is processed. The collector
  keeps what it held and has received the records of the handled prefix, whose registry
  entries are the ones removed.
\<close>

theorem consumeNotify_root_loss_cancels:
  assumes "port_getn reply limit 1 = Inr evs"
      and "k < length evs"
      and "root_loss root (evs ! k)"
  shows "\<exists>w' new.
           consumeNotify limit reply w root coll
             = Returned (False, w', w_root_cancel root, coll @ new)
         \<and> cancelled (w_root_cancel root)
         \<and> length (processed root evs) \<le> k
         \<and> processed root evs = take (length (processed root evs)) evs
         \<and> map path new = map (\<lambda>ev. name (portev_user ev)) (processed root evs)
         \<and> port_files w' = port_files w |` (- names (processed root evs))
         \<and> native_calls w' = native_calls w @ [Port_getn (port_fd w) limit 1]"
proof -
  have "evs ! k \<in> set evs" using assms(2) by simp
  with assms(3) have some: "\<not> (\<forall>e\<in>set evs. \<not> root_loss root e)" by blast
  have "evs \<noteq> []" using assms(2) by auto
  have run: "consumeNotify limit reply w root coll =
      Returned (False,
        w\<lparr>port_files := port_files w |` (- names (processed root evs)),
          native_calls := native_calls w @ [Port_getn (port_fd w) limit 1]\<rparr>,
        w_root_cancel root, coll @ map (pushed Uninitialized) (processed root evs))"
    using consumeNotify_events [OF assms(1), of w root coll] some by simp
  have paths: "map path (map (pushed Uninitialized) (processed root evs))
      = map (\<lambda>ev. name (portev_user ev)) (processed root evs)"
    by (simp add: pushed_def)
  have c: "cancelled (w_root_cancel root)"
    by (simp add: w_root_cancel_def)
  show ?thesis
    apply (rule exI [where x = "w\<lparr>port_files := port_files w |` (- names (processed root evs)),
          native_calls := native_calls w @ [Port_getn (port_fd w) limit 1]\<rparr>"])
    apply (rule exI [where x = "map (pushed Uninitialized) (processed root evs)"])
    apply (intro conjI)
          apply (rule run)
         apply (rule c)
        apply (rule processed_stops [OF assms(2,3)])
       apply (rule processed_prefix)
      apply (rule paths)
     apply simp
    apply simp
    done
qed

theorem consumeNotify_root_loss_cancels_witness:
  "port_getn (Getn_delivers [ex_modified ''/r/a'', ex_deleted ''/r'', ex_modified ''/r/b'']) 4 1
     = Inr [ex_modified ''/r/a'', ex_deleted ''/r'', ex_modified ''/r/b'']
   \<and> (1::nat) < length [ex_modified ''/r/a'', ex_deleted ''/r'', ex_modified ''/r/b'']
   \<and> root_loss ex_root ([ex_modified ''/r/a'', ex_deleted ''/r'', ex_modified ''/r/b''] ! 1)
   \<and> (\<exists>w' new.
         consumeNotify 4
             (Getn_delivers [ex_modified ''/r/a'', ex_deleted ''/r'', ex_modified ''/r/b''])
             ex_watcher ex_root []
           = Returned (False, w', w_root_cancel ex_root, new)
         \<and> map path new = [''/r/a'']
         \<and> port_files w' ''/r/a'' = None
         \<and> port_files w' ''/r'' = Some (ex_token ''/r'')
         \<and> port_files w' ''/r/b'' = Some (ex_token ''/r/b''))"
proof -
  let ?evs = "[ex_modified ''/r/a'', ex_deleted ''/r'', ex_modified ''/r/b'']"
  have h1: "port_getn (Getn_delivers ?evs) 4 1 = Inr ?evs"
    by (simp add: port_getn_def)
  have h2: "(1::nat) < length ?evs" by simp
  have h3: "root_loss ex_root (?evs ! 1)"
    by (simp add: ex_defs)
  have pr: "processed ex_root ?evs = [ex_modified ''/r/a'']"
    by (simp add: processed_def ex_defs)
  have nm: "names [ex_modified ''/r/a''] = {''/r/a''}"
    by (simp add: names_def ex_defs)
  from consumeNotify_root_loss_cancels [OF h1 h2 h3, of ex_watcher "[]"]
  obtain w' new where
    r: "consumeNotify 4 (Getn_delivers ?evs) ex_watcher ex_root []
          = Returned (False, w', w_root_cancel ex_root, new)"
    and p: "map path new = map (\<lambda>ev. name (portev_user ev)) (processed ex_root ?evs)"
    and f: "port_files w' = port_files ex_watcher |` (- names (processed ex_root ?evs))"
    by auto
  have p': "map path new = [''/r/a'']"
    using p [unfolded pr] by (simp add: ex_modified_def ex_token_def)
  have f': "port_files w' ''/r/a'' = None \<and> port_files w' ''/r'' = Some (ex_token ''/r'')
      \<and> port_files w' ''/r/b'' = Some (ex_token ''/r/b'')"
    unfolding f pr nm by (simp add: ex_watcher_def restrict_map_def)
  have ex: "\<exists>w' new.
      consumeNotify 4 (Getn_delivers ?evs) ex_watcher ex_root []
        = Returned (False, w', w_root_cancel ex_root, new)
      \<and> map path new = [''/r/a'']
      \<and> port_files w' ''/r/a'' = None
      \<and> port_files w' ''/r'' = Some (ex_token ''/r'')
      \<and> port_files w' ''/r/b'' = Some (ex_token ''/r/b'')"
    using r p' f' by (intro exI [of _ w'] exI [of _ new]) simp
  show ?thesis
    by (intro conjI) (rule h1 h2 h3 ex)+
qed

subsection \<open>Arming\<close>

text \<open>
  \<open>do_watch\<close> has five ways through: the path is armed already; no token can be
  allocated; the table takes no new entry; the operating system refuses the
  association; the path is armed afresh. One lemma for each, then what they share.
\<close>

lemma do_watch_armed:
  "port_files w nm \<noteq> None \<Longrightarrow> do_watch env w nm st = (True, w)"
  by (simp add: do_watch_def w_ht_get_def)

lemma do_watch_no_token:
  "port_files w nm = None \<Longrightarrow> calloc_fails env \<Longrightarrow> do_watch env w nm st = (False, w)"
  by (simp add: do_watch_def w_ht_get_def make_port_file_def)

lemma do_watch_no_entry:
  "port_files w nm = None \<Longrightarrow> \<not> calloc_fails env \<Longrightarrow> w_ht_set_fails env
     \<Longrightarrow> do_watch env w nm st = (False, w)"
  by (simp add: do_watch_def w_ht_get_def make_port_file_def w_ht_set_def)

lemma do_watch_refused:
  assumes "port_files w nm = None" and "\<not> calloc_fails env" and "\<not> w_ht_set_fails env"
      and "port_associate_errno env = Some e"
  shows "\<exists>tok. make_port_file env nm st = Some tok
           \<and> do_watch env w nm st =
               (False, w\<lparr>native_calls := native_calls w
                           @ [Port_associate (port_fd w) tok WATCHMAN_PORT_EVENTS]\<rparr>)"
proof -
  have "(port_files w)(nm := None) = port_files w"
    using assms(1) by (rule fun_upd_idem)
  then show ?thesis
    using assms
    by (simp add: do_watch_def w_ht_get_def make_port_file_def w_ht_set_def
        port_associate_def w_ht_del_def)
qed

lemma do_watch_fresh:
  assumes "port_files w nm = None" and "\<not> calloc_fails env" and "\<not> w_ht_set_fails env"
      and "port_associate_errno env = None"
  shows "\<exists>tok. make_port_file env nm st = Some tok
           \<and> do_watch env w nm st =
               (True, w\<lparr>port_files := (port_files w)(nm \<mapsto> tok),
                        native_calls := native_calls w
                           @ [Port_associate (port_fd w) tok WATCHMAN_PORT_EVENTS]\<rparr>)"
  using assms
  by (simp add: do_watch_def w_ht_get_def make_port_file_def w_ht_set_def port_associate_def)

lemma do_watch_outcome:
  assumes "do_watch env w nm st = (ok, w')"
  shows "(ok \<longleftrightarrow> port_files w' nm \<noteq> None) \<and> (\<not> ok \<longrightarrow> port_files w' = port_files w)"
proof (cases "port_files w nm = None")
  case False
  then show ?thesis using assms do_watch_armed [of w nm env st] by auto
next
  case absent: True
  show ?thesis
  proof (cases "calloc_fails env")
    case True
    then show ?thesis using assms absent do_watch_no_token [of w nm env st] by auto
  next
    case mem: False
    show ?thesis
    proof (cases "w_ht_set_fails env")
      case True
      then show ?thesis using assms absent mem do_watch_no_entry [of w nm env st] by auto
    next
      case ins: False
      show ?thesis
      proof (cases "port_associate_errno env")
        case None
        then show ?thesis
          using assms do_watch_fresh [OF absent mem ins, of st] by auto
      next
        case (Some e)
        then show ?thesis
          using assms absent do_watch_refused [OF absent mem ins, of e st] by auto
      qed
    qed
  qed
qed

lemmas ex_env_defs = ex_ok_def ex_refused_def ex_empty_def ex_stat_def ex_token_def

text \<open>
  C6. When a call of \<open>do_watch\<close> has armed a path, a second call for the same path
  returns true and gives back the watcher as it was: the registry is not modified and
  \<open>port_associate\<close> is not called again, whatever the surroundings would have answered.
  The registry holds exactly one token for the path.
\<close>

theorem do_watch_twice:
  assumes "do_watch env1 w nm st1 = (True, w1)"
  shows "do_watch env2 w1 nm st2 = (True, w1) \<and> (\<exists>!f. port_files w1 nm = Some f)"
proof -
  have "port_files w1 nm \<noteq> None"
    using do_watch_outcome [OF assms] by simp
  then show ?thesis
    using do_watch_armed [of w1 nm env2 st2] by auto
qed

theorem do_watch_twice_witness:
  "do_watch ex_ok ex_empty ''/r/a'' ex_stat
     = (True, ex_empty\<lparr>port_files := [''/r/a'' \<mapsto> ex_token ''/r/a''],
                       native_calls := [Port_associate 3 (ex_token ''/r/a'') WATCHMAN_PORT_EVENTS]\<rparr>)
   \<and> do_watch ex_refused
        (ex_empty\<lparr>port_files := [''/r/a'' \<mapsto> ex_token ''/r/a''],
                  native_calls := [Port_associate 3 (ex_token ''/r/a'') WATCHMAN_PORT_EVENTS]\<rparr>)
        ''/r/a'' ex_stat
     = (True, ex_empty\<lparr>port_files := [''/r/a'' \<mapsto> ex_token ''/r/a''],
                       native_calls := [Port_associate 3 (ex_token ''/r/a'') WATCHMAN_PORT_EVENTS]\<rparr>)
   \<and> (\<exists>!f. port_files
              (ex_empty\<lparr>port_files := [''/r/a'' \<mapsto> ex_token ''/r/a''],
                        native_calls := [Port_associate 3 (ex_token ''/r/a'') WATCHMAN_PORT_EVENTS]\<rparr>)
              ''/r/a'' = Some f)"
proof -
  have first: "do_watch ex_ok ex_empty ''/r/a'' ex_stat
     = (True, ex_empty\<lparr>port_files := [''/r/a'' \<mapsto> ex_token ''/r/a''],
                       native_calls := [Port_associate 3 (ex_token ''/r/a'') WATCHMAN_PORT_EVENTS]\<rparr>)"
    by (simp add: do_watch_def w_ht_get_def make_port_file_def w_ht_set_def port_associate_def
        ex_env_defs)
  show ?thesis
    using first do_watch_twice [OF first, of ex_refused ex_stat] by blast
qed

text \<open>
  C7. When the path was not armed, the token and its table entry could be made, and
  \<open>port_associate\<close> fails, \<open>do_watch\<close> returns false and the registry is what it was
  before the call, with no entry for the path. The one trace of the attempt is the
  refused \<open>port_associate\<close> call for this path's token; the result is an ordinary
  return value, so a caller can go on to other paths.
\<close>

theorem do_watch_rollback:
  assumes "port_files w nm = None" and "\<not> calloc_fails env" and "\<not> w_ht_set_fails env"
      and "port_associate_errno env = Some e"
  shows "\<exists>w' tok. do_watch env w nm st = (False, w')
           \<and> port_files w' = port_files w
           \<and> port_files w' nm = None
           \<and> native_calls w' = native_calls w
                @ [Port_associate (port_fd w) tok WATCHMAN_PORT_EVENTS]
           \<and> name tok = nm"
proof -
  from do_watch_refused [OF assms, of st] obtain tok where
    t: "make_port_file env nm st = Some tok"
    and r: "do_watch env w nm st =
      (False, w\<lparr>native_calls := native_calls w
                  @ [Port_associate (port_fd w) tok WATCHMAN_PORT_EVENTS]\<rparr>)"
    by blast
  have "name tok = nm"
    using t by (auto simp: make_port_file_def split: if_splits)
  then show ?thesis
    using r assms(1) by simp
qed

theorem do_watch_rollback_witness:
  "port_files ex_empty ''/r/a'' = None \<and> \<not> calloc_fails ex_refused
   \<and> \<not> w_ht_set_fails ex_refused \<and> port_associate_errno ex_refused = Some ENOENT
   \<and> (\<exists>w' tok. do_watch ex_refused ex_empty ''/r/a'' ex_stat = (False, w')
         \<and> port_files w' = port_files ex_empty
         \<and> port_files w' ''/r/a'' = None
         \<and> native_calls w' = native_calls ex_empty
              @ [Port_associate (port_fd ex_empty) tok WATCHMAN_PORT_EVENTS]
         \<and> name tok = ''/r/a'')"
proof -
  have h1: "port_files ex_empty ''/r/a'' = None" by (simp add: ex_empty_def)
  have h2: "\<not> calloc_fails ex_refused" by (simp add: ex_refused_def)
  have h3: "\<not> w_ht_set_fails ex_refused" by (simp add: ex_refused_def)
  have h4: "port_associate_errno ex_refused = Some ENOENT" by (simp add: ex_refused_def)
  show ?thesis
    by (intro conjI) (rule h1 h2 h3 h4 do_watch_rollback [OF h1 h2 h3 h4])+
qed

text \<open>
  C9. \<open>do_watch\<close> returns true if and only if the registry holds an entry for the path
  when it returns. Whenever it returns false the registry has no entry for the path and
  equals the registry before the call; whenever it returns true the registry has
  exactly one.
\<close>

theorem do_watch_true_iff_entry:
  assumes "do_watch env w nm st = (ok, w')"
  shows "(ok \<longleftrightarrow> port_files w' nm \<noteq> None)
       \<and> (\<not> ok \<longrightarrow> port_files w' nm = None \<and> port_files w' = port_files w)
       \<and> (ok \<longrightarrow> (\<exists>!f. port_files w' nm = Some f))"
proof -
  have iff: "ok \<longleftrightarrow> port_files w' nm \<noteq> None"
    by (rule do_watch_outcome [OF assms, THEN conjunct1])
  have keep: "\<not> ok \<longrightarrow> port_files w' = port_files w"
    by (rule do_watch_outcome [OF assms, THEN conjunct2])
  have none: "\<not> ok \<longrightarrow> port_files w' nm = None \<and> port_files w' = port_files w"
    using iff keep by blast
  have one: "ok \<longrightarrow> (\<exists>!f. port_files w' nm = Some f)"
    using iff by auto
  show ?thesis
    by (intro conjI) (rule iff none one)+
qed



theorem do_watch_true_iff_entry_witness:
  "do_watch ex_refused ex_empty ''/r/a'' ex_stat
     = (False, ex_empty\<lparr>native_calls :=
                 [Port_associate 3 (ex_token ''/r/a'') WATCHMAN_PORT_EVENTS]\<rparr>)
   \<and> port_files (ex_empty\<lparr>native_calls :=
                 [Port_associate 3 (ex_token ''/r/a'') WATCHMAN_PORT_EVENTS]\<rparr>) ''/r/a'' = None
   \<and> do_watch ex_ok ex_empty ''/r/a'' ex_stat
     = (True, ex_empty\<lparr>port_files := [''/r/a'' \<mapsto> ex_token ''/r/a''],
                       native_calls := [Port_associate 3 (ex_token ''/r/a'') WATCHMAN_PORT_EVENTS]\<rparr>)
   \<and> port_files (ex_empty\<lparr>port_files := [''/r/a'' \<mapsto> ex_token ''/r/a''],
                       native_calls := [Port_associate 3 (ex_token ''/r/a'') WATCHMAN_PORT_EVENTS]\<rparr>)
        ''/r/a'' \<noteq> None"
proof -
  have bad: "do_watch ex_refused ex_empty ''/r/a'' ex_stat
     = (False, ex_empty\<lparr>native_calls :=
                 [Port_associate 3 (ex_token ''/r/a'') WATCHMAN_PORT_EVENTS]\<rparr>)"
    by (simp add: do_watch_def w_ht_get_def make_port_file_def w_ht_set_def port_associate_def
        w_ht_del_def ex_env_defs)
  have good: "do_watch ex_ok ex_empty ''/r/a'' ex_stat
     = (True, ex_empty\<lparr>port_files := [''/r/a'' \<mapsto> ex_token ''/r/a''],
                       native_calls := [Port_associate 3 (ex_token ''/r/a'') WATCHMAN_PORT_EVENTS]\<rparr>)"
    by (simp add: do_watch_def w_ht_get_def make_port_file_def w_ht_set_def port_associate_def
        ex_env_defs)
  have absent: "port_files (ex_empty\<lparr>native_calls :=
                 [Port_associate 3 (ex_token ''/r/a'') WATCHMAN_PORT_EVENTS]\<rparr>) ''/r/a'' = None"
    using do_watch_true_iff_entry [OF bad, THEN conjunct1] by blast
  have present: "port_files (ex_empty\<lparr>port_files := [''/r/a'' \<mapsto> ex_token ''/r/a''],
                       native_calls := [Port_associate 3 (ex_token ''/r/a'') WATCHMAN_PORT_EVENTS]\<rparr>)
        ''/r/a'' \<noteq> None"
    using do_watch_true_iff_entry [OF good, THEN conjunct1] by blast
  show ?thesis
    by (intro conjI) (rule bad good absent present)+
qed

subsection \<open>Draining\<close>

text \<open>
  Facts about the handled prefix of a batch, the bound that \<open>port_getn\<close> keeps, and the
  number of times the loop body is entered.
\<close>

lemma processed_reaches:
  assumes "k < length evs" and "\<forall>j\<le>k. \<not> root_loss root (evs ! j)"
  shows "k < length (processed root evs)"
proof (rule ccontr)
  let ?n = "length (takeWhile (\<lambda>ev. \<not> root_loss root ev) evs)"
  assume "\<not> k < length (processed root evs)"
  then have le: "?n \<le> k" by (simp add: processed_def)
  with assms(1) have "?n < length evs" by simp
  then have "\<not> \<not> root_loss root (evs ! ?n)"
    by (rule nth_length_takeWhile)
  with assms(2) le show False by blast
qed

lemma processed_nth:
  "k < length (processed root evs) \<Longrightarrow> processed root evs ! k = evs ! k"
  unfolding processed_def by (rule takeWhile_nth)

lemma processed_all:
  "\<forall>e\<in>set evs. \<not> root_loss root e \<Longrightarrow> processed root evs = evs"
  unfolding processed_def by simp

lemma outside_processed:
  assumes "distinct (map (\<lambda>ev. name (portev_user ev)) evs)"
      and "k < length evs"
      and "length (processed root evs) \<le> k"
  shows "name (portev_user (evs ! k)) \<notin> names (processed root evs)"
proof
  let ?paths = "map (\<lambda>ev. name (portev_user ev)) evs"
  assume "name (portev_user (evs ! k)) \<in> names (processed root evs)"
  then obtain e where e: "e \<in> set (processed root evs)"
    and same: "name (portev_user e) = name (portev_user (evs ! k))"
    by (auto simp: names_def)
  from e obtain i where i: "i < length (processed root evs)" and "processed root evs ! i = e"
    by (auto simp: in_set_conv_nth)
  then have ei: "evs ! i = e"
    using processed_nth [OF i] by simp
  have ik: "i < k" using i assms(3) by simp
  then have il: "i < length evs" using assms(2) by simp
  have eq: "?paths ! i = ?paths ! k"
    using ei same il assms(2) by simp
  have li: "i < length ?paths" and lk: "k < length ?paths"
    using il assms(2) by simp_all
  have "i = k"
    using nth_eq_iff_index_eq [OF assms(1) li lk] eq by blast
  with ik show False by simp
qed

lemma port_getn_bound:
  "port_getn reply limit nget = Inr evs \<Longrightarrow> length evs \<le> limit"
  by (auto simp: port_getn_def split: port_getn_reply.splits)

lemma processed_short:
  assumes "e \<in> set evs" and "root_loss root e"
  shows "length (processed root evs) < length evs"
  using assms unfolding processed_def by (induction evs) auto

lemma iterations_bound:
  "iterations (\<forall>e\<in>set evs. \<not> root_loss root e) (length (processed root evs)) \<le> length evs"
proof (cases "\<forall>e\<in>set evs. \<not> root_loss root e")
  case True
  then show ?thesis by (simp add: iterations_def processed_all)
next
  case False
  then obtain e where "e \<in> set evs" and "root_loss root e" by blast
  then have "length (processed root evs) < length evs"
    by (rule processed_short)
  with False show ?thesis by (simp add: iterations_def)
qed

lemma processed_length: "length (processed root evs) \<le> length evs"
  unfolding processed_def by (rule length_takeWhile_le)

lemma consumeNotify_loop:
  assumes "port_getn reply limit 1 = Inr evs"
  shows "\<exists>ret i w' root' coll'.
           consumeNotify limit reply w root coll = Returned (ret, w', root', coll')
         \<and> native_calls w' = native_calls w @ [Port_getn (port_fd w) limit 1]
         \<and> length coll' \<le> length coll + limit
         \<and> (if evs = [] then \<not> ret \<and> coll' = coll \<and> port_files w' = port_files w
             else notify_loop Uninitialized evs 0
                    (w\<lparr>native_calls := native_calls w @ [Port_getn (port_fd w) limit 1]\<rparr>)
                    root coll = (ret, i, w', root', coll')
                  \<and> iterations ret i \<le> length evs
                  \<and> iterations ret i \<le> limit)"
proof -
  let ?ret = "evs \<noteq> [] \<and> (\<forall>e\<in>set evs. \<not> root_loss root e)"
  let ?w' = "w\<lparr>port_files := port_files w |` (- names (processed root evs)),
               native_calls := native_calls w @ [Port_getn (port_fd w) limit 1]\<rparr>"
  let ?root' = "if \<forall>e\<in>set evs. \<not> root_loss root e then root else w_root_cancel root"
  let ?coll' = "coll @ map (pushed Uninitialized) (processed root evs)"
  have n: "length evs \<le> limit"
    using assms by (rule port_getn_bound)
  have len: "length ?coll' \<le> length coll + limit"
    using processed_length [of root evs] n by simp
  have it: "iterations (\<forall>e\<in>set evs. \<not> root_loss root e) (length (processed root evs))
      \<le> length evs"
    by (rule iterations_bound)
  have rest: "if evs = [] then \<not> ?ret \<and> ?coll' = coll \<and> port_files ?w' = port_files w
      else notify_loop Uninitialized evs 0
             (w\<lparr>native_calls := native_calls w @ [Port_getn (port_fd w) limit 1]\<rparr>)
             root coll = (?ret, length (processed root evs), ?w', ?root', ?coll')
           \<and> iterations ?ret (length (processed root evs)) \<le> length evs
           \<and> iterations ?ret (length (processed root evs)) \<le> limit"
  proof (cases "evs = []")
    case True
    then show ?thesis by (simp add: processed_def names_def restrict_map_def)
  next
    case False
    then show ?thesis using it n by (simp add: notify_loop_eq)
  qed
  show ?thesis
    apply (rule exI [where x = ?ret], rule exI [where x = "length (processed root evs)"])
    apply (rule exI [where x = ?w'], rule exI [where x = ?root'], rule exI [where x = ?coll'])
    apply (intro conjI)
       apply (rule consumeNotify_events [OF assms])
      apply simp
     apply (rule len)
    apply (rule rest)
    done
qed

text \<open>
  C2, as stated, fails: the claim has the registry entry of every drained event removed,
  the one of an event that triggers cancellation included. The batch below holds one
  event, the deletion of the root \<open>/r\<close>. The call cancels the root and returns before
  it reaches \<open>w_ht_del\<close>, and the entry for \<open>/r\<close> is still in the registry.
\<close>

theorem consumeNotify_keeps_entry_counterexample:
  "port_getn (Getn_delivers [ex_deleted ''/r'']) 4 1 = Inr [ex_deleted ''/r'']
   \<and> consumeNotify 4 (Getn_delivers [ex_deleted ''/r'']) ex_watcher ex_root []
       = Returned (False, ex_watcher\<lparr>native_calls := [Port_getn 3 4 1]\<rparr>,
                   ex_root\<lparr>cancelled := True\<rparr>, [])
   \<and> port_files (ex_watcher\<lparr>native_calls := [Port_getn 3 4 1]\<rparr>)
        (name (portev_user (ex_deleted ''/r''))) = Some (ex_token ''/r'')"
  by (simp add: consumeNotify_def port_getn_def w_string_equal_def w_root_cancel_def
      ex_root_def ex_watcher_def ex_deleted_def ex_token_def
      FILE_DELETE_def FILE_RENAME_FROM_def UNMOUNTED_def MOUNTEDOVER_def)

text \<open>
  C2, amended. For every event of the drained batch that is not preceded by, and is not
  itself, an event satisfying the root-loss condition, the registry entry for its path
  is gone when the call returns, and a following \<open>do_watch\<close> of that path whose
  allocations and association succeed arms it afresh: it calls \<open>port_associate\<close> and
  stores a new token. The event that triggers cancellation and the events after it are
  not processed: every path that no event before the cancelling one carries keeps the
  entry it had before the call, so in a batch whose events have pairwise distinct paths
  the entries of the cancelling event and of all later events are left in place. The
  statement holds for every batch, one whose first event cancels the root included.
\<close>

theorem consumeNotify_forgets_processed:
  assumes "port_getn reply limit 1 = Inr evs"
  shows "\<exists>ret w' root' coll'.
           consumeNotify limit reply w root coll = Returned (ret, w', root', coll')
         \<and> (\<forall>k. k < length evs \<and> (\<forall>j\<le>k. \<not> root_loss root (evs ! j)) \<longrightarrow>
               port_files w' (name (portev_user (evs ! k))) = None
               \<and> (\<forall>env st. \<not> calloc_fails env \<and> \<not> w_ht_set_fails env
                      \<and> port_associate_errno env = None \<longrightarrow>
                    (\<exists>tok. make_port_file env (name (portev_user (evs ! k))) st = Some tok
                       \<and> do_watch env w' (name (portev_user (evs ! k))) st =
                           (True,
                            w'\<lparr>port_files :=
                                  (port_files w')(name (portev_user (evs ! k)) \<mapsto> tok),
                                native_calls := native_calls w'
                                  @ [Port_associate (port_fd w') tok
                                       WATCHMAN_PORT_EVENTS]\<rparr>))))
         \<and> (\<forall>p. p \<notin> names (processed root evs) \<longrightarrow> port_files w' p = port_files w p)
         \<and> (distinct (map (\<lambda>ev. name (portev_user ev)) evs) \<longrightarrow>
              (\<forall>k. k < length evs \<and> (\<exists>j\<le>k. root_loss root (evs ! j)) \<longrightarrow>
                 port_files w' (name (portev_user (evs ! k)))
                   = port_files w (name (portev_user (evs ! k)))))"
proof -
  let ?w' = "w\<lparr>port_files := port_files w |` (- names (processed root evs)),
               native_calls := native_calls w @ [Port_getn (port_fd w) limit 1]\<rparr>"
  have others: "\<forall>p. p \<notin> names (processed root evs) \<longrightarrow> port_files ?w' p = port_files w p"
    by (simp add: restrict_map_def)
  have handled: "\<forall>k. k < length evs \<and> (\<forall>j\<le>k. \<not> root_loss root (evs ! j)) \<longrightarrow>
      port_files ?w' (name (portev_user (evs ! k))) = None
      \<and> (\<forall>env st. \<not> calloc_fails env \<and> \<not> w_ht_set_fails env
             \<and> port_associate_errno env = None \<longrightarrow>
           (\<exists>tok. make_port_file env (name (portev_user (evs ! k))) st = Some tok
              \<and> do_watch env ?w' (name (portev_user (evs ! k))) st =
                  (True,
                   ?w'\<lparr>port_files := (port_files ?w')(name (portev_user (evs ! k)) \<mapsto> tok),
                        native_calls := native_calls ?w'
                          @ [Port_associate (port_fd ?w') tok WATCHMAN_PORT_EVENTS]\<rparr>)))"
  proof (intro allI impI)
    fix k
    let ?nm = "name (portev_user (evs ! k))"
    assume a: "k < length evs \<and> (\<forall>j\<le>k. \<not> root_loss root (evs ! j))"
    then have k: "k < length (processed root evs)"
      using processed_reaches [of k evs root] by blast
    then have "processed root evs ! k \<in> set (processed root evs)"
      by (rule nth_mem)
    then have "evs ! k \<in> set (processed root evs)"
      using processed_nth [OF k] by simp
    then have mem: "?nm \<in> names (processed root evs)"
      by (auto simp: names_def)
    have gone: "port_files ?w' ?nm = None"
      using mem by (simp add: restrict_map_def)
    have fresh: "\<forall>env st. \<not> calloc_fails env \<and> \<not> w_ht_set_fails env
        \<and> port_associate_errno env = None \<longrightarrow>
        (\<exists>tok. make_port_file env ?nm st = Some tok
           \<and> do_watch env ?w' ?nm st =
               (True, ?w'\<lparr>port_files := (port_files ?w')(?nm \<mapsto> tok),
                         native_calls := native_calls ?w'
                           @ [Port_associate (port_fd ?w') tok WATCHMAN_PORT_EVENTS]\<rparr>))"
      using do_watch_fresh [OF gone] by blast
    show "port_files ?w' ?nm = None
      \<and> (\<forall>env st. \<not> calloc_fails env \<and> \<not> w_ht_set_fails env
             \<and> port_associate_errno env = None \<longrightarrow>
           (\<exists>tok. make_port_file env ?nm st = Some tok
              \<and> do_watch env ?w' ?nm st =
                  (True, ?w'\<lparr>port_files := (port_files ?w')(?nm \<mapsto> tok),
                            native_calls := native_calls ?w'
                              @ [Port_associate (port_fd ?w') tok WATCHMAN_PORT_EVENTS]\<rparr>)))"
      by (rule conjI) (rule gone fresh)+
  qed
  have after: "distinct (map (\<lambda>ev. name (portev_user ev)) evs) \<longrightarrow>
      (\<forall>k. k < length evs \<and> (\<exists>j\<le>k. root_loss root (evs ! j)) \<longrightarrow>
         port_files ?w' (name (portev_user (evs ! k)))
           = port_files w (name (portev_user (evs ! k))))"
  proof (intro allI impI)
    fix k
    assume d: "distinct (map (\<lambda>ev. name (portev_user ev)) evs)"
    assume a: "k < length evs \<and> (\<exists>j\<le>k. root_loss root (evs ! j))"
    then obtain j where j: "j \<le> k" and l: "root_loss root (evs ! j)" by blast
    have "j < length evs" using j a by simp
    then have "length (processed root evs) \<le> j"
      using l by (rule processed_stops)
    then have "length (processed root evs) \<le> k" using j by simp
    then have "name (portev_user (evs ! k)) \<notin> names (processed root evs)"
      using d a outside_processed [of evs k root] by blast
    then show "port_files ?w' (name (portev_user (evs ! k)))
        = port_files w (name (portev_user (evs ! k)))"
      using others by blast
  qed
  show ?thesis
    apply (rule exI, rule exI [where x = ?w'], rule exI, rule exI)
    apply (intro conjI)
       apply (rule consumeNotify_events [OF assms])
      apply (rule handled)
     apply (rule others)
    apply (rule after)
    done
qed

theorem consumeNotify_forgets_processed_witness:
  "port_getn (Getn_delivers [ex_modified ''/r/a'', ex_deleted ''/r'', ex_modified ''/r/b'']) 4 1
     = Inr [ex_modified ''/r/a'', ex_deleted ''/r'', ex_modified ''/r/b'']
   \<and> \<not> root_loss ex_root ([ex_modified ''/r/a'', ex_deleted ''/r'', ex_modified ''/r/b''] ! 0)
   \<and> root_loss ex_root ([ex_modified ''/r/a'', ex_deleted ''/r'', ex_modified ''/r/b''] ! 1)
   \<and> distinct (map (\<lambda>ev. name (portev_user ev))
         [ex_modified ''/r/a'', ex_deleted ''/r'', ex_modified ''/r/b''])
   \<and> (\<exists>ret w' root' coll'.
         consumeNotify 4
             (Getn_delivers [ex_modified ''/r/a'', ex_deleted ''/r'', ex_modified ''/r/b''])
             ex_watcher ex_root []
           = Returned (ret, w', root', coll')
         \<and> port_files w' ''/r/a'' = None
         \<and> port_files w' ''/r'' = Some (ex_token ''/r'')
         \<and> port_files w' ''/r/b'' = Some (ex_token ''/r/b'')
         \<and> do_watch ex_ok w' ''/r/a'' ex_stat =
             (True, w'\<lparr>port_files := (port_files w')(''/r/a'' \<mapsto> ex_token ''/r/a''),
                       native_calls := native_calls w'
                         @ [Port_associate (port_fd w') (ex_token ''/r/a'')
                              WATCHMAN_PORT_EVENTS]\<rparr>))
   \<and> port_getn (Getn_delivers [ex_deleted ''/r'']) 4 1 = Inr [ex_deleted ''/r'']
   \<and> root_loss ex_root ([ex_deleted ''/r''] ! 0)
   \<and> (\<exists>ret w' root' coll'.
         consumeNotify 4 (Getn_delivers [ex_deleted ''/r'']) ex_watcher ex_root []
           = Returned (ret, w', root', coll')
         \<and> port_files w' ''/r'' = Some (ex_token ''/r''))"
proof -
  let ?E = "[ex_modified ''/r/a'', ex_deleted ''/r'', ex_modified ''/r/b'']"
  let ?F = "[ex_deleted ''/r'']"
  have h1: "port_getn (Getn_delivers ?E) 4 1 = Inr ?E"
    by (simp add: port_getn_def)
  have g1: "port_getn (Getn_delivers ?F) 4 1 = Inr ?F"
    by (simp add: port_getn_def)
  have e0: "\<not> root_loss ex_root (?E ! 0)"
    by (simp add: ex_defs)
  have e1: "root_loss ex_root (?E ! 1)"
    by (simp add: ex_defs)
  have f0: "root_loss ex_root (?F ! 0)"
    by (simp add: ex_defs)
  have dE: "distinct (map (\<lambda>ev. name (portev_user ev)) ?E)"
    by (simp add: ex_modified_def ex_deleted_def ex_token_def)
  have dF: "distinct (map (\<lambda>ev. name (portev_user ev)) ?F)"
    by simp
  have n0: "name (portev_user (?E ! 0)) = ''/r/a''"
    by (simp add: ex_modified_def ex_token_def)
  have n1: "name (portev_user (?E ! 1)) = ''/r''"
    by (simp add: ex_deleted_def ex_token_def)
  have n2: "name (portev_user (?E ! 2)) = ''/r/b''"
    by (simp add: ex_modified_def ex_token_def)
  have m0: "name (portev_user (?F ! 0)) = ''/r''"
    by (simp add: ex_deleted_def ex_token_def)
  have reg1: "port_files ex_watcher ''/r'' = Some (ex_token ''/r'')"
    by (simp add: ex_watcher_def)
  have reg2: "port_files ex_watcher ''/r/b'' = Some (ex_token ''/r/b'')"
    by (simp add: ex_watcher_def)
  have env: "\<not> calloc_fails ex_ok \<and> \<not> w_ht_set_fails ex_ok \<and> port_associate_errno ex_ok = None"
    by (simp add: ex_ok_def)
  have tok: "make_port_file ex_ok ''/r/a'' ex_stat = Some (ex_token ''/r/a'')"
    by (simp add: make_port_file_def ex_ok_def ex_stat_def ex_token_def)
  have k0: "(0::nat) < length ?E \<and> (\<forall>j\<le>0. \<not> root_loss ex_root (?E ! j))"
    using e0 by simp
  have k1: "(1::nat) < length ?E \<and> (\<exists>j\<le>1. root_loss ex_root (?E ! j))"
    using e1 by (intro conjI exI [of _ 1]) simp_all
  have k2: "(2::nat) < length ?E \<and> (\<exists>j\<le>2. root_loss ex_root (?E ! j))"
    using e1 by (intro conjI exI [of _ 1]) simp_all
  have l0: "(0::nat) < length ?F \<and> (\<exists>j\<le>0. root_loss ex_root (?F ! j))"
    using f0 by (intro conjI exI [of _ 0]) simp_all
  from consumeNotify_forgets_processed [OF h1, of ex_watcher ex_root "[]"]
  have first: "\<exists>ret w' root' coll'.
         consumeNotify 4 (Getn_delivers ?E) ex_watcher ex_root [] = Returned (ret, w', root', coll')
         \<and> port_files w' ''/r/a'' = None
         \<and> port_files w' ''/r'' = Some (ex_token ''/r'')
         \<and> port_files w' ''/r/b'' = Some (ex_token ''/r/b'')
         \<and> do_watch ex_ok w' ''/r/a'' ex_stat =
             (True, w'\<lparr>port_files := (port_files w')(''/r/a'' \<mapsto> ex_token ''/r/a''),
                       native_calls := native_calls w'
                         @ [Port_associate (port_fd w') (ex_token ''/r/a'')
                              WATCHMAN_PORT_EVENTS]\<rparr>)"
  proof (elim exE conjE)
    fix ret w' root' coll'
    assume r: "consumeNotify 4 (Getn_delivers ?E) ex_watcher ex_root []
        = Returned (ret, w', root', coll')"
    assume a: "\<forall>k. k < length ?E \<and> (\<forall>j\<le>k. \<not> root_loss ex_root (?E ! j)) \<longrightarrow>
               port_files w' (name (portev_user (?E ! k))) = None
               \<and> (\<forall>env st. \<not> calloc_fails env \<and> \<not> w_ht_set_fails env
                      \<and> port_associate_errno env = None \<longrightarrow>
                    (\<exists>tok. make_port_file env (name (portev_user (?E ! k))) st = Some tok
                       \<and> do_watch env w' (name (portev_user (?E ! k))) st =
                           (True,
                            w'\<lparr>port_files :=
                                  (port_files w')(name (portev_user (?E ! k)) \<mapsto> tok),
                                native_calls := native_calls w'
                                  @ [Port_associate (port_fd w') tok
                                       WATCHMAN_PORT_EVENTS]\<rparr>)))"
    assume c: "distinct (map (\<lambda>ev. name (portev_user ev)) ?E) \<longrightarrow>
              (\<forall>k. k < length ?E \<and> (\<exists>j\<le>k. root_loss ex_root (?E ! j)) \<longrightarrow>
                 port_files w' (name (portev_user (?E ! k)))
                   = port_files ex_watcher (name (portev_user (?E ! k))))"
    note a0 = a [rule_format, OF k0, unfolded n0]
    have gone: "port_files w' ''/r/a'' = None"
      using a0 by (rule conjunct1)
    have kept1: "port_files w' ''/r'' = Some (ex_token ''/r'')"
      using c [rule_format, OF dE k1, unfolded n1] reg1 by (rule trans)
    have kept2: "port_files w' ''/r/b'' = Some (ex_token ''/r/b'')"
      using c [rule_format, OF dE k2, unfolded n2] reg2 by (rule trans)
    from a0 [THEN conjunct2, rule_format, OF env, of ex_stat]
    obtain t where t: "make_port_file ex_ok ''/r/a'' ex_stat = Some t"
      and d: "do_watch ex_ok w' ''/r/a'' ex_stat =
        (True, w'\<lparr>port_files := (port_files w')(''/r/a'' \<mapsto> t),
                  native_calls := native_calls w'
                    @ [Port_associate (port_fd w') t WATCHMAN_PORT_EVENTS]\<rparr>)"
      by (elim exE conjE)
    have "t = ex_token ''/r/a''" using t tok by simp
    then have arm: "do_watch ex_ok w' ''/r/a'' ex_stat =
        (True, w'\<lparr>port_files := (port_files w')(''/r/a'' \<mapsto> ex_token ''/r/a''),
                  native_calls := native_calls w'
                    @ [Port_associate (port_fd w') (ex_token ''/r/a'') WATCHMAN_PORT_EVENTS]\<rparr>)"
      using d by simp
    show ?thesis
      by (intro exI conjI) (rule r gone kept1 kept2 arm)+
  qed
  from consumeNotify_forgets_processed [OF g1, of ex_watcher ex_root "[]"]
  have second: "\<exists>ret w' root' coll'.
         consumeNotify 4 (Getn_delivers ?F) ex_watcher ex_root [] = Returned (ret, w', root', coll')
         \<and> port_files w' ''/r'' = Some (ex_token ''/r'')"
  proof (elim exE conjE)
    fix ret w' root' coll'
    assume r: "consumeNotify 4 (Getn_delivers ?F) ex_watcher ex_root []
        = Returned (ret, w', root', coll')"
    assume c: "distinct (map (\<lambda>ev. name (portev_user ev)) ?F) \<longrightarrow>
              (\<forall>k. k < length ?F \<and> (\<exists>j\<le>k. root_loss ex_root (?F ! j)) \<longrightarrow>
                 port_files w' (name (portev_user (?F ! k)))
                   = port_files ex_watcher (name (portev_user (?F ! k))))"
    have kept: "port_files w' ''/r'' = Some (ex_token ''/r'')"
      using c [rule_format, OF dF l0, unfolded m0] reg1 by (rule trans)
    show ?thesis
      by (intro exI conjI) (rule r kept)+
  qed
  show ?thesis
    by (intro conjI) (rule h1 e0 e1 dE first g1 f0 second)+
qed




text \<open>
  C4. The claim has every pushed record carry the time at which the batch was drained.
  The source declares \<open>struct timeval now\<close>, never stores a value in it, and passes it
  to \<open>w_pending_coll_add\<close>. Run on a batch with one modification event, the call pushes
  a record whose \<open>observedAt\<close> is the uninitialised \<open>now\<close>; the lemma after it says the
  same of every record any call pushes.
\<close>

theorem consumeNotify_timestamp_never_set:
  "consumeNotify 4 (Getn_delivers [ex_modified ''/r/a'']) ex_watcher ex_root []
     = Returned (True,
         ex_watcher\<lparr>port_files := (port_files ex_watcher)(''/r/a'' := None),
                    native_calls := [Port_getn 3 4 1]\<rparr>,
         ex_root,
         [\<lparr>path = ''/r/a'', observedAt = Uninitialized, isRecursive = True,
           origin = Notify\<rparr>])"
  by (simp add: consumeNotify_def port_getn_def w_string_equal_def w_ht_del_def
      w_pending_coll_add_def FILE_MODIFIED_def
      ex_root_def ex_watcher_def ex_modified_def ex_token_def
      FILE_DELETE_def FILE_RENAME_FROM_def UNMOUNTED_def MOUNTEDOVER_def)

lemma consumeNotify_observedAt:
  assumes "consumeNotify limit reply w root coll = Returned (ret, w', root', coll')"
  shows "\<forall>r\<in>set (drop (length coll) coll'). observedAt r = Uninitialized"
proof (cases "port_getn reply limit 1")
  case (Inl e)
  then show ?thesis
    using assms consumeNotify_error [of reply limit e w root coll]
    by (auto split: if_splits)
next
  case (Inr evs)
  then show ?thesis
    using assms consumeNotify_events [of reply limit evs w root coll]
    by (auto simp: pushed_def)
qed

text \<open>
  C5. When \<open>port_getn\<close> fails with EINTR, \<open>consumeNotify\<close> returns false and leaves the
  root, the collector and the registry as they were. When it fails with any other
  error, the call ends in the fatal log message and returns nothing.
\<close>

theorem consumeNotify_retrieval_error:
  assumes "port_getn reply limit 1 = Inl e"
  shows "(e = EINTR \<longrightarrow>
            (\<exists>w'. consumeNotify limit reply w root coll = Returned (False, w', root, coll)
               \<and> port_files w' = port_files w))
       \<and> (e \<noteq> EINTR \<longrightarrow>
            consumeNotify limit reply w root coll = Fatal e
            \<and> (\<forall>x. consumeNotify limit reply w root coll \<noteq> Returned x))"
  using consumeNotify_error [OF assms, of w root coll] by simp

theorem consumeNotify_retrieval_error_witness:
  "port_getn (Getn_fails EINTR) 4 1 = Inl EINTR
   \<and> (\<exists>w'. consumeNotify 4 (Getn_fails EINTR) ex_watcher ex_root []
              = Returned (False, w', ex_root, [])
         \<and> port_files w' = port_files ex_watcher)
   \<and> port_getn (Getn_fails EBADF) 4 1 = Inl EBADF
   \<and> consumeNotify 4 (Getn_fails EBADF) ex_watcher ex_root [] = Fatal EBADF"
proof -
  have h1: "port_getn (Getn_fails EINTR) 4 1 = Inl EINTR"
    by (simp add: port_getn_def)
  have h2: "port_getn (Getn_fails EBADF) 4 1 = Inl EBADF"
    by (simp add: port_getn_def)
  have a: "\<exists>w'. consumeNotify 4 (Getn_fails EINTR) ex_watcher ex_root []
              = Returned (False, w', ex_root, [])
         \<and> port_files w' = port_files ex_watcher"
    using consumeNotify_retrieval_error [OF h1, of ex_watcher ex_root "[]"] by simp
  have b: "consumeNotify 4 (Getn_fails EBADF) ex_watcher ex_root [] = Fatal EBADF"
    using consumeNotify_retrieval_error [OF h2, of ex_watcher ex_root "[]"] by simp
  show ?thesis
    by (intro conjI) (rule h1 h2 a b)+
qed

text \<open>
  C8. \<open>consumeNotify\<close> calls \<open>port_getn\<close> once, with the batch limit as \<open>max\<close>, so it
  retrieves at most that many events. When the batch is empty the loop is not entered.
  Otherwise the result of the call is the result of the loop run on the batch from
  \<open>i = 0\<close>, and the number of times its body is entered is at most the number of events
  retrieved, hence at most the batch limit; the collector grows by at most the batch
  limit. When \<open>port_getn\<close> fails, no event is processed at all.
\<close>

theorem consumeNotify_batch_limit:
  "(\<forall>evs. port_getn reply limit 1 = Inr evs \<longrightarrow>
      length evs \<le> limit
      \<and> (\<exists>ret i w' root' coll'.
            consumeNotify limit reply w root coll = Returned (ret, w', root', coll')
          \<and> native_calls w' = native_calls w @ [Port_getn (port_fd w) limit 1]
          \<and> length coll' \<le> length coll + limit
          \<and> (if evs = [] then \<not> ret \<and> coll' = coll \<and> port_files w' = port_files w
              else notify_loop Uninitialized evs 0
                     (w\<lparr>native_calls := native_calls w @ [Port_getn (port_fd w) limit 1]\<rparr>)
                     root coll = (ret, i, w', root', coll')
                   \<and> iterations ret i \<le> length evs
                   \<and> iterations ret i \<le> limit)))
   \<and> (\<forall>e x. port_getn reply limit 1 = Inl e
         \<and> consumeNotify limit reply w root coll = Returned x \<longrightarrow>
         x = (False, w\<lparr>native_calls := native_calls w @ [Port_getn (port_fd w) limit 1]\<rparr>,
              root, coll))"
proof (intro conjI allI impI)
  fix evs
  assume "port_getn reply limit 1 = Inr evs"
  then show "length evs \<le> limit" by (rule port_getn_bound)
next
  fix evs
  assume "port_getn reply limit 1 = Inr evs"
  then show "\<exists>ret i w' root' coll'.
            consumeNotify limit reply w root coll = Returned (ret, w', root', coll')
          \<and> native_calls w' = native_calls w @ [Port_getn (port_fd w) limit 1]
          \<and> length coll' \<le> length coll + limit
          \<and> (if evs = [] then \<not> ret \<and> coll' = coll \<and> port_files w' = port_files w
              else notify_loop Uninitialized evs 0
                     (w\<lparr>native_calls := native_calls w @ [Port_getn (port_fd w) limit 1]\<rparr>)
                     root coll = (ret, i, w', root', coll')
                   \<and> iterations ret i \<le> length evs
                   \<and> iterations ret i \<le> limit)"
    by (rule consumeNotify_loop)
next
  fix e x
  assume "port_getn reply limit 1 = Inl e \<and> consumeNotify limit reply w root coll = Returned x"
  then show "x = (False, w\<lparr>native_calls := native_calls w @ [Port_getn (port_fd w) limit 1]\<rparr>,
              root, coll)"
    using consumeNotify_error [of reply limit e w root coll]
    by (auto split: if_splits)
qed

theorem consumeNotify_batch_limit_witness:
  "port_getn (Getn_delivers [ex_modified ''/r/a'', ex_modified ''/r/b'', ex_deleted ''/r'']) 2 1
     = Inr [ex_modified ''/r/a'', ex_modified ''/r/b'']
   \<and> length [ex_modified ''/r/a'', ex_modified ''/r/b''] \<le> (2::nat)
   \<and> (\<exists>ret i w' root' coll'.
         consumeNotify 2
             (Getn_delivers [ex_modified ''/r/a'', ex_modified ''/r/b'', ex_deleted ''/r''])
             ex_watcher ex_root []
           = Returned (ret, w', root', coll')
         \<and> native_calls w' = [Port_getn 3 2 1]
         \<and> length coll' \<le> 2
         \<and> notify_loop Uninitialized [ex_modified ''/r/a'', ex_modified ''/r/b''] 0
              (ex_watcher\<lparr>native_calls := [Port_getn 3 2 1]\<rparr>) ex_root []
            = (ret, i, w', root', coll')
         \<and> iterations ret i \<le> 2)"
proof -
  let ?R = "Getn_delivers [ex_modified ''/r/a'', ex_modified ''/r/b'', ex_deleted ''/r'']"
  let ?E = "[ex_modified ''/r/a'', ex_modified ''/r/b'']"
  have h1: "port_getn ?R 2 1 = Inr ?E"
    by (simp add: port_getn_def)
  have w: "native_calls ex_watcher = [] \<and> port_fd ex_watcher = 3"
    by (simp add: ex_watcher_def)
  note inst = consumeNotify_batch_limit [of ?R 2 ex_watcher ex_root "[]", THEN conjunct1,
      rule_format, OF h1]
  have len: "length ?E \<le> (2::nat)"
    using inst by blast
  from inst obtain ret i w' root' coll' where
    r: "consumeNotify 2 ?R ex_watcher ex_root [] = Returned (ret, w', root', coll')"
    and c: "native_calls w' = native_calls ex_watcher @ [Port_getn (port_fd ex_watcher) 2 1]"
    and l: "length coll' \<le> length ([] :: pending_change list) + 2"
    and n: "notify_loop Uninitialized ?E 0
              (ex_watcher\<lparr>native_calls := native_calls ex_watcher
                 @ [Port_getn (port_fd ex_watcher) 2 1]\<rparr>) ex_root []
            = (ret, i, w', root', coll')"
    and it: "iterations ret i \<le> 2"
    by auto
  have ex: "\<exists>ret i w' root' coll'.
         consumeNotify 2 ?R ex_watcher ex_root [] = Returned (ret, w', root', coll')
         \<and> native_calls w' = [Port_getn 3 2 1]
         \<and> length coll' \<le> 2
         \<and> notify_loop Uninitialized ?E 0
              (ex_watcher\<lparr>native_calls := [Port_getn 3 2 1]\<rparr>) ex_root []
            = (ret, i, w', root', coll')
         \<and> iterations ret i \<le> 2"
    using r c l n it w by auto
  show ?thesis
    by (intro conjI) (rule h1 len ex)+
qed

text \<open>
  C10. \<open>consumeNotify\<close> returns true if and only if \<open>port_getn\<close> delivered at least one
  event and no delivered event satisfies the root-loss condition. When some delivered
  event does, it returns false with the root cancelled; it returns false as well, with
  the root untouched, for an empty batch and for EINTR.
\<close>

theorem consumeNotify_return_value:
  assumes "consumeNotify limit reply w root coll = Returned (ret, w', root', coll')"
  shows "(ret \<longleftrightarrow> (\<exists>evs. port_getn reply limit 1 = Inr evs \<and> evs \<noteq> []
                      \<and> (\<forall>e\<in>set evs. \<not> root_loss root e)))
       \<and> ((\<exists>evs. port_getn reply limit 1 = Inr evs \<and> (\<exists>e\<in>set evs. root_loss root e))
            \<longrightarrow> \<not> ret \<and> root' = w_root_cancel root)
       \<and> (port_getn reply limit 1 = Inr [] \<longrightarrow> \<not> ret \<and> root' = root)
       \<and> (port_getn reply limit 1 = Inl EINTR \<longrightarrow> \<not> ret \<and> root' = root)"
proof (cases "port_getn reply limit 1")
  case (Inl e)
  then show ?thesis
    using assms consumeNotify_error [of reply limit e w root coll]
    by (auto split: if_splits)
next
  case (Inr evs)
  then show ?thesis
    using assms consumeNotify_events [of reply limit evs w root coll]
    by auto
qed

theorem consumeNotify_return_value_witness:
  "consumeNotify 4 (Getn_delivers [ex_modified ''/r/b'']) ex_watcher ex_root []
     = Returned (True,
         ex_watcher\<lparr>port_files := (port_files ex_watcher)(''/r/b'' := None),
                    native_calls := [Port_getn 3 4 1]\<rparr>,
         ex_root,
         [\<lparr>path = ''/r/b'', observedAt = Uninitialized, isRecursive = True, origin = Notify\<rparr>])
   \<and> (\<exists>evs. port_getn (Getn_delivers [ex_modified ''/r/b'']) 4 1 = Inr evs \<and> evs \<noteq> []
          \<and> (\<forall>e\<in>set evs. \<not> root_loss ex_root e))
   \<and> consumeNotify 4 (Getn_delivers [ex_modified ''/r/b'', ex_deleted ''/r'']) ex_watcher ex_root []
     = Returned (False,
         ex_watcher\<lparr>port_files := (port_files ex_watcher)(''/r/b'' := None),
                    native_calls := [Port_getn 3 4 1]\<rparr>,
         ex_root\<lparr>cancelled := True\<rparr>,
         [\<lparr>path = ''/r/b'', observedAt = Uninitialized, isRecursive = True, origin = Notify\<rparr>])
   \<and> \<not> (\<exists>evs. port_getn (Getn_delivers [ex_modified ''/r/b'', ex_deleted ''/r'']) 4 1 = Inr evs
            \<and> evs \<noteq> [] \<and> (\<forall>e\<in>set evs. \<not> root_loss ex_root e))"
proof -
  have run1: "consumeNotify 4 (Getn_delivers [ex_modified ''/r/b'']) ex_watcher ex_root []
     = Returned (True,
         ex_watcher\<lparr>port_files := (port_files ex_watcher)(''/r/b'' := None),
                    native_calls := [Port_getn 3 4 1]\<rparr>,
         ex_root,
         [\<lparr>path = ''/r/b'', observedAt = Uninitialized, isRecursive = True, origin = Notify\<rparr>])"
    by (simp add: consumeNotify_def port_getn_def w_string_equal_def w_ht_del_def
        w_pending_coll_add_def FILE_MODIFIED_def
        ex_root_def ex_watcher_def ex_modified_def ex_token_def
        FILE_DELETE_def FILE_RENAME_FROM_def UNMOUNTED_def MOUNTEDOVER_def)
  have run2: "consumeNotify 4 (Getn_delivers [ex_modified ''/r/b'', ex_deleted ''/r''])
        ex_watcher ex_root []
     = Returned (False,
         ex_watcher\<lparr>port_files := (port_files ex_watcher)(''/r/b'' := None),
                    native_calls := [Port_getn 3 4 1]\<rparr>,
         ex_root\<lparr>cancelled := True\<rparr>,
         [\<lparr>path = ''/r/b'', observedAt = Uninitialized, isRecursive = True, origin = Notify\<rparr>])"
    by (simp add: consumeNotify_def port_getn_def w_string_equal_def w_ht_del_def
        w_pending_coll_add_def w_root_cancel_def FILE_MODIFIED_def
        ex_root_def ex_watcher_def ex_modified_def ex_deleted_def ex_token_def
        FILE_DELETE_def FILE_RENAME_FROM_def UNMOUNTED_def MOUNTEDOVER_def)
  have yes: "\<exists>evs. port_getn (Getn_delivers [ex_modified ''/r/b'']) 4 1 = Inr evs \<and> evs \<noteq> []
          \<and> (\<forall>e\<in>set evs. \<not> root_loss ex_root e)"
    using consumeNotify_return_value [OF run1, THEN conjunct1] by blast
  have no: "\<not> (\<exists>evs. port_getn (Getn_delivers [ex_modified ''/r/b'', ex_deleted ''/r'']) 4 1
        = Inr evs \<and> evs \<noteq> [] \<and> (\<forall>e\<in>set evs. \<not> root_loss ex_root e))"
    using consumeNotify_return_value [OF run2, THEN conjunct1] by blast
  show ?thesis
    by (intro conjI) (rule run1 run2 yes no)+
qed

end
